theory Spec2Isabelle
  imports Main
begin

section \<open>Python values and string primitives\<close>

text \<open>
  The trend finder is a Python class \<^verbatim>\<open>PrintifyTrendFinder\<close>. Python strings are modelled
  as \<^typ>\<open>string\<close>, a \<^typ>\<open>char\<close> standing for the code point of the same number:
  the model covers the texts whose code points are below 256. Every operation of the
  source that can raise returns a value of \<open>error + 'a\<close>, with \<open>Inl\<close> for
  the exception.
\<close>

datatype error = ValueError | IndexError | ServiceError

definition bind :: "error + 'a \<Rightarrow> ('a \<Rightarrow> error + 'b) \<Rightarrow> error + 'b" where
  "bind m f = (case m of Inl e \<Rightarrow> Inl e | Inr x \<Rightarrow> f x)"

abbreviation nl :: string where
  "nl \<equiv> [CHR 0x0A]"

text \<open>\<^verbatim>\<open>str.isspace\<close> on one character: tab, line feed, vertical tab, form feed,
  carriage return, the four separators 0x1C..0x1F, the space, and above 127 the next
  line control 0x85 and the no-break space 0xA0.\<close>

definition is_space :: "char \<Rightarrow> bool" where
  "is_space c =
     (let n = (of_char c :: nat)
      in (9 \<le> n \<and> n \<le> 13) \<or> (28 \<le> n \<and> n \<le> 32) \<or> n = 133 \<or> n = 160)"

text \<open>\<^verbatim>\<open>s.strip()\<close>\<close>

definition strip :: "string \<Rightarrow> string" where
  "strip s = rev (dropWhile is_space (rev (dropWhile is_space s)))"

text \<open>\<^verbatim>\<open>s.startswith(p)\<close>\<close>

definition startswith :: "string \<Rightarrow> string \<Rightarrow> bool" where
  "startswith s p = (take (length p) s = p)"

text \<open>\<^verbatim>\<open>s.find(sub)\<close>: the lowest index where \<open>sub\<close> occurs, \<open>None\<close> for Python's -1.\<close>

fun py_find :: "string \<Rightarrow> string \<Rightarrow> nat option" where
  "py_find [] sub = (if sub = [] then Some 0 else None)"
| "py_find (c # cs) sub =
     (if startswith (c # cs) sub then Some 0 else map_option Suc (py_find cs sub))"

text \<open>\<^verbatim>\<open>sub in s\<close>\<close>

definition contains :: "string \<Rightarrow> string \<Rightarrow> bool" where
  "contains s sub = (py_find s sub \<noteq> None)"

text \<open>\<^verbatim>\<open>s.split(sep)\<close> for a non-empty separator: cut at the first occurrence and go on
  with the rest, from left to right.\<close>

function split_at :: "string \<Rightarrow> string \<Rightarrow> string list" where
  "split_at s sep =
     (if sep = [] then [s]
      else case py_find s sep of
             None \<Rightarrow> [s]
           | Some i \<Rightarrow> take i s # split_at (drop (i + length sep) s) sep)"
  by pat_completeness auto
termination
proof (relation "measure (\<lambda>(s, sep). length s)")
  show "wf (measure (\<lambda>(s, sep). length s))" by simp
next
  fix s sep :: string and i :: nat
  assume sep: "sep \<noteq> []" and found: "py_find s sep = Some i"
  have bound: "k + length sub \<le> length t" if "py_find t sub = Some k" for t sub k
    using that
  proof (induction t arbitrary: k)
    case Nil
    then show ?case by (simp split: if_splits)
  next
    case (Cons c cs)
    show ?case
    proof (cases "startswith (c # cs) sub")
      case True
      then have "length (take (length sub) (c # cs)) = length sub"
        unfolding startswith_def by simp
      then have "min (length sub) (length (c # cs)) = length sub"
        by (simp only: length_take)
      then have "length sub \<le> length (c # cs)"
        by arith
      with True Cons.prems show ?thesis by simp
    next
      case False
      with Cons.prems obtain j where "py_find cs sub = Some j" "k = Suc j"
        by auto
      with Cons.IH show ?thesis by fastforce
    qed
  qed
  from bound [OF found] sep have "i + length sep \<le> length s" and "0 < length sep"
    by simp_all
  moreover have "length (drop (i + length sep) s) = length s - (i + length sep)"
    by (rule length_drop)
  ultimately have "length (drop (i + length sep) s) < length s"
    by arith
  then show "((drop (i + length sep) s, sep), (s, sep)) \<in> measure (\<lambda>(s, sep). length s)"
    by simp
qed

text \<open>Python raises \<^verbatim>\<open>ValueError\<close> on an empty separator.\<close>

definition py_split :: "string \<Rightarrow> string \<Rightarrow> error + string list" where
  "py_split s sep = (if sep = [] then Inl ValueError else Inr (split_at s sep))"

text \<open>\<^verbatim>\<open>xs[i]\<close> for a non-negative index.\<close>

definition index :: "'a list \<Rightarrow> nat \<Rightarrow> error + 'a" where
  "index xs i = (if i < length xs then Inr (xs ! i) else Inl IndexError)"

text \<open>\<^verbatim>\<open>int(s)\<close> in base 10: surrounding whitespace is dropped, one sign is allowed, then
  decimal digits, where single underscores may stand between two digits. A literal of
  more digits than the interpreter's limit (4300 by default) is refused. The
  whitespace that \<^verbatim>\<open>int\<close> drops is not that of \<^verbatim>\<open>str.strip\<close>: of the characters below
  128 only tab to carriage return and the space, so that the separators 0x1C..0x1F
  make the literal invalid; 0x85 and 0xA0 are dropped.\<close>

definition is_int_space :: "char \<Rightarrow> bool" where
  "is_int_space c =
     (let n = (of_char c :: nat)
      in (9 \<le> n \<and> n \<le> 13) \<or> n = 32 \<or> n = 133 \<or> n = 160)"

definition int_strip :: "string \<Rightarrow> string" where
  "int_strip s = rev (dropWhile is_int_space (rev (dropWhile is_int_space s)))"

definition is_digit :: "char \<Rightarrow> bool" where
  "is_digit c = (let n = (of_char c :: nat) in 48 \<le> n \<and> n \<le> 57)"

definition digit_val :: "char \<Rightarrow> int" where
  "digit_val c = int (of_char c) - 48"

fun digits_value :: "int \<Rightarrow> string \<Rightarrow> int option" where
  "digits_value acc [] = Some acc"
| "digits_value acc (c # cs) =
     (if is_digit c then digits_value (10 * acc + digit_val c) cs
      else if c = CHR ''_'' \<and> cs \<noteq> [] \<and> is_digit (hd cs) then digits_value acc cs
      else None)"

definition int_max_str_digits :: nat where
  "int_max_str_digits = 4300"

definition py_int :: "string \<Rightarrow> error + int" where
  "py_int s =
     (let t = int_strip s;
          neg = (t \<noteq> [] \<and> hd t = CHR ''-'');
          body = (if t \<noteq> [] \<and> (hd t = CHR ''-'' \<or> hd t = CHR ''+'') then tl t else t)
      in if body = [] \<or> \<not> is_digit (hd body) then Inl ValueError
         else if int_max_str_digits < length (filter is_digit body) then Inl ValueError
         else case digits_value 0 body of
                None \<Rightarrow> Inl ValueError
              | Some n \<Rightarrow> Inr (if neg then - n else n))"

section \<open>Opportunity records\<close>

text \<open>
  An opportunity is a Python dict from field names to values; all values are strings
  but the demand score, an integer. The dict is an association list in insertion
  order; \<open>dict_set\<close> is \<^verbatim>\<open>d[k] = v\<close> (an existing key keeps its place) and
  \<open>dict_get\<close> is \<^verbatim>\<open>d.get(k, default)\<close>. The empty dict \<open>[]\<close> is the only falsy one.
\<close>

datatype pyval = PyStr string | PyInt int

type_synonym opp = "(string \<times> pyval) list"

fun dict_set :: "opp \<Rightarrow> string \<Rightarrow> pyval \<Rightarrow> opp" where
  "dict_set [] k v = [(k, v)]"
| "dict_set (p # ps) k v = (if fst p = k then (k, v) # ps else p # dict_set ps k v)"

definition dict_get :: "opp \<Rightarrow> string \<Rightarrow> pyval \<Rightarrow> pyval" where
  "dict_get d k dflt = (case map_of d k of None \<Rightarrow> dflt | Some v \<Rightarrow> v)"

section \<open>The record extractor\<close>

text \<open>\<^verbatim>\<open>section.split(label)[1].split(stop)[0].strip()\<close>\<close>

definition value_between :: "string \<Rightarrow> string \<Rightarrow> string \<Rightarrow> error + string" where
  "value_between section label stop =
     bind (py_split section label) (\<lambda>parts.
     bind (index parts 1) (\<lambda>after.
     bind (py_split after stop) (\<lambda>pieces.
     bind (index pieces 0) (\<lambda>v. Inr (strip v)))))"

text \<open>\<^verbatim>\<open>section.split(label)[1].strip()\<close>\<close>

definition value_after :: "string \<Rightarrow> string \<Rightarrow> error + string" where
  "value_after section label =
     bind (py_split section label) (\<lambda>parts.
     bind (index parts 1) (\<lambda>after. Inr (strip after)))"

text \<open>The \<^verbatim>\<open>try\<close> of the demand score: \<^verbatim>\<open>int(score_text.split('/')[0].strip())\<close>, and 5
  when anything in it raises.\<close>

definition demand_score_of :: "string \<Rightarrow> int" where
  "demand_score_of score_text =
     (case bind (py_split score_text ''/'') (\<lambda>parts.
           bind (index parts 0) (\<lambda>first. py_int (strip first))) of
        Inr n \<Rightarrow> n
      | Inl e \<Rightarrow> 5)"

text \<open>The \<^verbatim>\<open>if\<close>/\<^verbatim>\<open>elif\<close> chain that extracts a field of one section.\<close>

definition extract_field :: "opp \<Rightarrow> string \<Rightarrow> error + opp" where
  "extract_field current_opp section =
     (if contains section ''NICHE NAME:'' then
        bind (value_between section ''NICHE NAME:'' nl) (\<lambda>v.
          Inr (dict_set current_opp ''niche'' (PyStr v)))
      else if contains section ''TARGET AUDIENCE:'' then
        bind (value_between section ''TARGET AUDIENCE:'' nl) (\<lambda>v.
          Inr (dict_set current_opp ''audience'' (PyStr v)))
      else if contains section ''DESIGN THEME:'' then
        bind (value_between section ''DESIGN THEME:'' nl) (\<lambda>v.
          Inr (dict_set current_opp ''design_theme'' (PyStr v)))
      else if contains section ''PRODUCTS:'' then
        bind (value_between section ''PRODUCTS:'' nl) (\<lambda>v.
          Inr (dict_set current_opp ''products'' (PyStr v)))
      else if contains section ''DEMAND SCORE:'' then
        bind (value_between section ''DEMAND SCORE:'' nl) (\<lambda>score_text.
          Inr (dict_set current_opp ''demand_score'' (PyInt (demand_score_of score_text))))
      else if contains section ''COMPETITION:'' then
        bind (value_between section ''COMPETITION:'' nl) (\<lambda>v.
          Inr (dict_set current_opp ''competition'' (PyStr v)))
      else if contains section ''DESIGN EXAMPLES:'' then
        bind (value_between section ''DESIGN EXAMPLES:'' ''WHY IT WORKS:'') (\<lambda>v.
          Inr (dict_set current_opp ''design_examples'' (PyStr v)))
      else if contains section ''WHY IT WORKS:'' then
        bind (value_between section ''WHY IT WORKS:'' ''FACEBOOK AD ANGLE:'') (\<lambda>v.
          Inr (dict_set current_opp ''why_works'' (PyStr v)))
      else if contains section ''FACEBOOK AD ANGLE:'' then
        bind (value_between section ''FACEBOOK AD ANGLE:'' ''ESTIMATED MONTHLY REVENUE:'') (\<lambda>v.
          Inr (dict_set current_opp ''ad_angle'' (PyStr v)))
      else if contains section ''ESTIMATED MONTHLY REVENUE:'' then
        bind (value_after section ''ESTIMATED MONTHLY REVENUE:'') (\<lambda>v.
          Inr (dict_set current_opp ''est_revenue'' (PyStr v)))
      else Inr current_opp)"

text \<open>A section starts a new record when it holds the niche label or when its stripped
  text starts with \<^verbatim>\<open>1.\<close> or \<^verbatim>\<open>2.\<close>.\<close>

definition is_boundary :: "string \<Rightarrow> bool" where
  "is_boundary section =
     (contains section ''NICHE NAME:'' \<or> startswith (strip section) ''1.''
      \<or> startswith (strip section) ''2.'')"

text \<open>The first statement of the loop body: at a boundary a non-empty accumulator is
  appended to the result and reset. The state is \<open>(opportunities, current_opp)\<close>.\<close>

definition close_record :: "opp list \<times> opp \<Rightarrow> string \<Rightarrow> opp list \<times> opp" where
  "close_record st section =
     (case st of (opportunities, current_opp) \<Rightarrow>
        if is_boundary section then
          (if current_opp \<noteq> [] then (opportunities @ [current_opp], [])
           else (opportunities, current_opp))
        else (opportunities, current_opp))"

text \<open>The \<^verbatim>\<open>for section in sections\<close> loop.\<close>

fun process_sections :: "string list \<Rightarrow> opp list \<times> opp \<Rightarrow> error + opp list \<times> opp" where
  "process_sections [] st = Inr st"
| "process_sections (section # sections) st =
     (case close_record st section of (opportunities, current_opp) \<Rightarrow>
        bind (extract_field current_opp section) (\<lambda>current_opp'.
          process_sections sections (opportunities, current_opp')))"

text \<open>After the loop a non-empty accumulator is the last record.\<close>

definition finish :: "opp list \<times> opp \<Rightarrow> opp list" where
  "finish st =
     (case st of (opportunities, current_opp) \<Rightarrow>
        if current_opp \<noteq> [] then opportunities @ [current_opp] else opportunities)"

definition extract_sections :: "string list \<Rightarrow> error + opp list" where
  "extract_sections sections =
     bind (process_sections sections ([], [])) (\<lambda>st. Inr (finish st))"

definition extract_opportunities :: "string \<Rightarrow> error + opp list" where
  "extract_opportunities analysis_text =
     bind (py_split analysis_text (nl @ nl)) extract_sections"

text \<open>Some recognised label occurs in the text: the disjunction of the conditions of the
  chain in \<open>extract_field\<close>.\<close>

definition has_label :: "string \<Rightarrow> bool" where
  "has_label section =
     (contains section ''NICHE NAME:'' \<or> contains section ''TARGET AUDIENCE:''
      \<or> contains section ''DESIGN THEME:'' \<or> contains section ''PRODUCTS:''
      \<or> contains section ''DEMAND SCORE:'' \<or> contains section ''COMPETITION:''
      \<or> contains section ''DESIGN EXAMPLES:'' \<or> contains section ''WHY IT WORKS:''
      \<or> contains section ''FACEBOOK AD ANGLE:''
      \<or> contains section ''ESTIMATED MONTHLY REVENUE:'')"

section \<open>The report sink\<close>

text \<open>
  \<^verbatim>\<open>save_to_sheets\<close> talks to the spreadsheet service and reads the clock. A request is
  what one \<^verbatim>\<open>values().append(...)\<close> call carries; the service of the object answers a
  request by returning or by raising. The clock is a function of the number of reads
  made so far. The effects of a call are collected in a \<open>sink\<close>: the requests
  sent, in order, and the lines printed.
\<close>

record request =
  spreadsheetId :: string
  range_arg :: string
  valueInputOption :: string
  body_values :: "pyval list list"

record finder =
  sheet_id :: string
  sheets_service :: "request \<Rightarrow> error + unit"

datatype console = No_opportunities | Saved nat | Error_saving error

record sink =
  requests :: "request list"
  printed :: "console list"

text \<open>The method call \<^verbatim>\<open>self.extract_opportunities(analysis_text)\<close> as a transformer of
  the object: the method reads and assigns no attribute.\<close>

definition call_extract_opportunities :: "finder \<Rightarrow> string \<Rightarrow> finder \<times> (error + opp list)" where
  "call_extract_opportunities self analysis_text = (self, extract_opportunities analysis_text)"

text \<open>One row of the records range, with the defaults of \<^verbatim>\<open>opp.get\<close>.\<close>

definition make_row :: "string \<Rightarrow> opp \<Rightarrow> pyval list" where
  "make_row now opp =
     [PyStr now,
      dict_get opp ''niche'' (PyStr []),
      dict_get opp ''audience'' (PyStr []),
      dict_get opp ''design_theme'' (PyStr []),
      dict_get opp ''products'' (PyStr []),
      dict_get opp ''demand_score'' (PyInt 5),
      dict_get opp ''competition'' (PyStr ''Medium''),
      dict_get opp ''design_examples'' (PyStr []),
      dict_get opp ''why_works'' (PyStr []),
      dict_get opp ''ad_angle'' (PyStr []),
      dict_get opp ''est_revenue'' (PyStr []),
      PyStr ''Not started'',
      PyStr []]"

text \<open>\<^verbatim>\<open>self.sheets_service.spreadsheets().values().append(...).execute()\<close>\<close>

definition append_values ::
  "finder \<Rightarrow> string \<Rightarrow> pyval list list \<Rightarrow> sink \<Rightarrow> sink \<times> (error + unit)" where
  "append_values self rng rows log =
     (let req = \<lparr>spreadsheetId = sheet_id self, range_arg = rng,
                  valueInputOption = ''RAW'', body_values = rows\<rparr>
      in (log\<lparr>requests := requests log @ [req]\<rparr>, sheets_service self req))"

text \<open>The body of the \<^verbatim>\<open>try\<close>: the first exception ends it.\<close>

definition save_rows ::
  "finder \<Rightarrow> (nat \<Rightarrow> string) \<Rightarrow> opp list \<Rightarrow> string \<Rightarrow> sink \<Rightarrow> sink \<times> (error + unit)" where
  "save_rows self clock opportunities raw_analysis log =
     (let rows = map (\<lambda>(i, opp). make_row (clock i) opp) (enumerate 0 opportunities)
      in case append_values self ''Opportunities!A:M'' rows log of
           (log1, Inl e) \<Rightarrow> (log1, Inl e)
         | (log1, Inr u) \<Rightarrow>
             (let log2 = log1\<lparr>printed := printed log1 @ [Saved (length rows)]\<rparr>;
                  raw_row = [ [PyStr (clock (length opportunities)), PyStr raw_analysis] ]
              in append_values self ''Analysis!A:B'' raw_row log2))"

text \<open>The guard, the \<^verbatim>\<open>try\<close> and its \<^verbatim>\<open>except Exception\<close>. A result \<open>Inl\<close> would be
  an exception leaving the method.\<close>

definition save_to_sheets ::
  "finder \<Rightarrow> (nat \<Rightarrow> string) \<Rightarrow> opp list \<Rightarrow> string \<Rightarrow> error + sink" where
  "save_to_sheets self clock opportunities raw_analysis =
     (if sheet_id self = [] \<or> opportunities = [] then
        Inr \<lparr>requests = [], printed = [No_opportunities]\<rparr>
      else case save_rows self clock opportunities raw_analysis \<lparr>requests = [], printed = []\<rparr> of
             (log, Inl e) \<Rightarrow> Inr (log\<lparr>printed := printed log @ [Error_saving e]\<rparr>)
           | (log, Inr u) \<Rightarrow> Inr log)"

text \<open>The two requests of a run, and the requests of a sink that went to the audit range.\<close>

definition records_request :: "finder \<Rightarrow> (nat \<Rightarrow> string) \<Rightarrow> opp list \<Rightarrow> request" where
  "records_request self clock opportunities =
     \<lparr>spreadsheetId = sheet_id self, range_arg = ''Opportunities!A:M'',
      valueInputOption = ''RAW'',
      body_values = map (\<lambda>(i, opp). make_row (clock i) opp) (enumerate 0 opportunities)\<rparr>"

definition audit_request ::
  "finder \<Rightarrow> (nat \<Rightarrow> string) \<Rightarrow> opp list \<Rightarrow> string \<Rightarrow> request" where
  "audit_request self clock opportunities raw_analysis =
     \<lparr>spreadsheetId = sheet_id self, range_arg = ''Analysis!A:B'',
      valueInputOption = ''RAW'',
      body_values = [ [PyStr (clock (length opportunities)), PyStr raw_analysis] ]\<rparr>"

definition audit_requests :: "sink \<Rightarrow> request list" where
  "audit_requests log = filter (\<lambda>req. range_arg req = ''Analysis!A:B'') (requests log)"

text \<open>A clock and two services for concrete runs.\<close>

definition fixed_clock :: "nat \<Rightarrow> string" where
  "fixed_clock i = ''2025-01-01 00:00:00''"

definition accepting_service :: "request \<Rightarrow> error + unit" where
  "accepting_service req = Inr ()"

definition failing_service :: "request \<Rightarrow> error + unit" where
  "failing_service req = Inl ServiceError"

section \<open>The specification's description of the demand score\<close>

text \<open>The text of \<open>s\<close> before the first occurrence of \<open>sub\<close> (all of \<open>s\<close> when there
  is none), and the text after it.\<close>

definition text_before :: "string \<Rightarrow> string \<Rightarrow> string" where
  "text_before s sub = (case py_find s sub of None \<Rightarrow> s | Some i \<Rightarrow> take i s)"

definition text_after :: "string \<Rightarrow> string \<Rightarrow> string" where
  "text_after s sub = (case py_find s sub of None \<Rightarrow> [] | Some i \<Rightarrow> drop (i + length sub) s)"

text \<open>In the specification's words: the text after the label up to the next line break,
  stripped, the part before an optional slash, parsed as an integer (by \<^verbatim>\<open>int\<close>), 5 on
  failure.\<close>

definition spec_demand_score :: "string \<Rightarrow> int" where
  "spec_demand_score section =
     (let line = text_before (text_after section ''DEMAND SCORE:'') nl;
          stripped = strip line;
          number = text_before stripped ''/''
      in case py_int number of Inr n \<Rightarrow> n | Inl e \<Rightarrow> 5)"

text \<open>The same, where the text after the label also ends at the next occurrence of the
  label, and where the part before the slash is stripped once more before it is
  parsed.\<close>

definition spec_demand_score_segment :: "string \<Rightarrow> int" where
  "spec_demand_score_segment section =
     (let segment = text_before (text_after section ''DEMAND SCORE:'') ''DEMAND SCORE:'';
          line = text_before segment nl;
          stripped = strip line;
          number = strip (text_before stripped ''/'')
      in case py_int number of Inr n \<Rightarrow> n | Inl e \<Rightarrow> 5)"

section \<open>Strings: splitting, searching, stripping\<close>

declare split_at.simps [simp del]

lemma bind_Inr [simp]: "bind (Inr x) f = f x"
  by (simp add: bind_def)

lemma bind_Inl [simp]: "bind (Inl e) f = Inl e"
  by (simp add: bind_def)

lemma split_at_not_Nil: "split_at s sep \<noteq> []"
  by (subst split_at.simps) (simp split: option.split)

lemma split_at_length: "0 < length (split_at s sep)"
  using split_at_not_Nil [of s sep] by simp

text \<open>When the separator occurs, the split has a second piece: the index 1 that the
  source reads after an \<^verbatim>\<open>in\<close> test is in range.\<close>

lemma split_at_contains:
  assumes "contains s sep" and "sep \<noteq> []"
  shows "1 < length (split_at s sep)"
proof -
  from assms(1) obtain i where "py_find s sep = Some i"
    unfolding contains_def by auto
  with assms(2) have "split_at s sep = take i s # split_at (drop (i + length sep) s) sep"
    by (subst split_at.simps) simp
  with split_at_length [of "drop (i + length sep) s" sep] show ?thesis
    by simp
qed

lemma split_at_0: "sep \<noteq> [] \<Longrightarrow> split_at s sep ! 0 = text_before s sep"
  by (subst split_at.simps) (simp add: text_before_def split: option.split)

lemma split_at_1:
  assumes "contains s sep" and "sep \<noteq> []"
  shows "split_at s sep ! Suc 0 = text_before (text_after s sep) sep"
proof -
  from assms(1) obtain i where i: "py_find s sep = Some i"
    unfolding contains_def by auto
  with assms(2) have "split_at s sep = take i s # split_at (drop (i + length sep) s) sep"
    by (subst split_at.simps) simp
  then have "split_at s sep ! Suc 0 = split_at (drop (i + length sep) s) sep ! 0"
    by simp
  also have "\<dots> = text_before (drop (i + length sep) s) sep"
    using assms(2) by (rule split_at_0)
  finally show ?thesis using i by (simp add: text_after_def)
qed

lemma startswith_iff: "startswith s p \<longleftrightarrow> (\<exists>ys. s = p @ ys)"
proof
  assume "startswith s p"
  then have "s = p @ drop (length p) s"
    unfolding startswith_def by (metis append_take_drop_id)
  then show "\<exists>ys. s = p @ ys" ..
next
  assume "\<exists>ys. s = p @ ys"
  then show "startswith s p"
    unfolding startswith_def by auto
qed

text \<open>\<^verbatim>\<open>sub in s\<close> holds exactly when \<open>s\<close> can be cut around a copy of \<open>sub\<close>.\<close>

lemma contains_iff: "contains s sub \<longleftrightarrow> (\<exists>xs ys. s = xs @ sub @ ys)"
proof (induction s)
  case Nil
  show ?case by (simp add: contains_def)
next
  case (Cons c cs)
  show ?case
  proof (cases "startswith (c # cs) sub")
    case True
    then obtain ys where "c # cs = [] @ sub @ ys"
      unfolding startswith_iff by auto
    then have "\<exists>xs ys. c # cs = xs @ sub @ ys" by blast
    with True show ?thesis by (simp add: contains_def)
  next
    case False
    then have "contains (c # cs) sub \<longleftrightarrow> contains cs sub"
      by (simp add: contains_def)
    also have "\<dots> \<longleftrightarrow> (\<exists>xs ys. cs = xs @ sub @ ys)"
      by (rule Cons.IH)
    also have "\<dots> \<longleftrightarrow> (\<exists>xs ys. c # cs = xs @ sub @ ys)"
    proof
      assume "\<exists>xs ys. cs = xs @ sub @ ys"
      then obtain xs ys where "cs = xs @ sub @ ys" by blast
      then have "c # cs = (c # xs) @ sub @ ys" by simp
      then show "\<exists>xs ys. c # cs = xs @ sub @ ys" by blast
    next
      assume "\<exists>xs ys. c # cs = xs @ sub @ ys"
      then obtain xs ys where eq: "c # cs = xs @ sub @ ys" by blast
      show "\<exists>xs ys. cs = xs @ sub @ ys"
      proof (cases xs)
        case Nil
        with eq have "startswith (c # cs) sub"
          unfolding startswith_iff by auto
        with False show ?thesis by simp
      next
        case (Cons x xs')
        with eq have "cs = xs' @ sub @ ys" by simp
        then show ?thesis by blast
      qed
    qed
    finally show ?thesis .
  qed
qed

lemma contains_infix: "contains p sub \<Longrightarrow> contains (a @ p @ b) sub"
proof -
  assume "contains p sub"
  then obtain xs ys where "p = xs @ sub @ ys"
    unfolding contains_iff by blast
  then have "a @ p @ b = (a @ xs) @ sub @ (ys @ b)" by simp
  then show ?thesis unfolding contains_iff by blast
qed

text \<open>Every piece of a split is a part of the text that was split.\<close>

lemma split_at_infix: "p \<in> set (split_at s sep) \<Longrightarrow> \<exists>a b. s = a @ p @ b"
proof (induction s sep rule: split_at.induct)
  case (1 s sep)
  show ?case
  proof (cases "sep = []")
    case True
    with "1.prems" have "p = s" by (subst (asm) split_at.simps) simp
    then have "s = [] @ p @ []" by simp
    then show ?thesis by blast
  next
    case False
    show ?thesis
    proof (cases "py_find s sep")
      case None
      with False "1.prems" have "p = s" by (subst (asm) split_at.simps) simp
      then have "s = [] @ p @ []" by simp
      then show ?thesis by blast
    next
      case (Some i)
      with False "1.prems" have "p = take i s \<or> p \<in> set (split_at (drop (i + length sep) s) sep)"
        by (subst (asm) split_at.simps) simp
      then show ?thesis
      proof
        assume "p = take i s"
        then have "s = [] @ p @ drop i s" by simp
        then show ?thesis by blast
      next
        assume "p \<in> set (split_at (drop (i + length sep) s) sep)"
        with "1.IH" [OF False Some] obtain a b where "drop (i + length sep) s = a @ p @ b"
          by blast
        then have "s = (take (i + length sep) s @ a) @ p @ b"
          by (metis append_take_drop_id append.assoc)
        then show ?thesis by blast
      qed
    qed
  qed
qed

lemma contains_split_at:
  "p \<in> set (split_at s sep) \<Longrightarrow> contains p sub \<Longrightarrow> contains s sub"
  using split_at_infix contains_infix by metis

lemma has_label_split_at:
  "p \<in> set (split_at s sep) \<Longrightarrow> has_label p \<Longrightarrow> has_label s"
  unfolding has_label_def using contains_split_at by blast

section \<open>One section: the chain of labels\<close>

lemma value_between_eq:
  assumes "contains section label" and "label \<noteq> []" and "stop \<noteq> []"
  shows "value_between section label stop =
           Inr (strip (split_at (split_at section label ! 1) stop ! 0))"
  using split_at_contains [OF assms(1,2)] split_at_length [of "split_at section label ! 1" stop]
    assms(2,3)
  by (simp add: value_between_def py_split_def index_def)

lemma value_after_eq:
  assumes "contains section label" and "label \<noteq> []"
  shows "value_after section label = Inr (strip (split_at section label ! 1))"
  using split_at_contains [OF assms] assms(2)
  by (simp add: value_after_def py_split_def index_def)

lemma demand_score_of_eq:
  "demand_score_of score_text =
     (case py_int (strip (text_before score_text ''/'')) of Inr n \<Rightarrow> n | Inl e \<Rightarrow> 5)"
  using split_at_length [of score_text "''/''"]
  by (simp add: demand_score_of_def py_split_def index_def split_at_0)

lemma extract_field_no_label:
  "\<not> has_label section \<Longrightarrow> extract_field current_opp section = Inr current_opp"
  by (simp add: has_label_def extract_field_def)

lemma extract_field_total: "\<exists>c. extract_field current_opp section = Inr c"
  unfolding extract_field_def
  by (simp add: value_between_eq value_after_eq)

section \<open>The loop over the sections\<close>

lemma process_sections_total: "\<exists>st'. process_sections sections st = Inr st'"
proof (induction sections arbitrary: st)
  case Nil
  show ?case by simp
next
  case (Cons s ss)
  obtain os c where cr: "close_record st s = (os, c)"
    by (cases "close_record st s")
  obtain c' where ef: "extract_field c s = Inr c'"
    using extract_field_total by blast
  from Cons.IH [of "(os, c')"] cr ef show ?case by simp
qed

lemma extract_sections_total: "\<exists>opportunities. extract_sections sections = Inr opportunities"
  using process_sections_total [of sections "([], [])"]
  by (auto simp: extract_sections_def)

lemma close_record_no_empty:
  "close_record (os, c) s = (os', c') \<Longrightarrow> [] \<notin> set os \<Longrightarrow> [] \<notin> set os'"
  by (auto simp: close_record_def split: if_splits)

lemma process_sections_no_empty:
  "process_sections sections (os, c) = Inr (os', c') \<Longrightarrow> [] \<notin> set os \<Longrightarrow> [] \<notin> set os'"
proof (induction sections arbitrary: os c)
  case Nil
  then show ?case by simp
next
  case (Cons s ss)
  obtain os1 c1 where cr: "close_record (os, c) s = (os1, c1)"
    by (cases "close_record (os, c) s")
  obtain c2 where ef: "extract_field c1 s = Inr c2"
    using extract_field_total by blast
  from Cons.prems(1) cr ef have "process_sections ss (os1, c2) = Inr (os', c')"
    by simp
  moreover from cr Cons.prems(2) have "[] \<notin> set os1"
    by (rule close_record_no_empty)
  ultimately show ?case by (rule Cons.IH)
qed

lemma extract_sections_no_empty:
  assumes "extract_sections sections = Inr opportunities"
  shows "[] \<notin> set opportunities"
proof -
  obtain os c where ps: "process_sections sections ([], []) = Inr (os, c)"
    using process_sections_total [of sections "([], [])"] by (metis surj_pair)
  then have "[] \<notin> set os"
    using process_sections_no_empty by fastforce
  with ps assms show ?thesis
    by (auto simp: extract_sections_def finish_def split: if_splits)
qed

lemma process_sections_no_label:
  "\<forall>s \<in> set sections. \<not> has_label s \<Longrightarrow> process_sections sections (os, []) = Inr (os, [])"
proof (induction sections)
  case Nil
  show ?case by simp
next
  case (Cons s ss)
  then have "\<not> has_label s" by simp
  then have "extract_field [] s = Inr []"
    by (rule extract_field_no_label)
  moreover have "close_record (os, []) s = (os, [])"
    by (simp add: close_record_def)
  ultimately show ?case using Cons by simp
qed

lemma save_to_sheets_total: "\<exists>log. save_to_sheets self clock opportunities raw_analysis = Inr log"
  by (simp add: save_to_sheets_def split: prod.split sum.split)

section \<open>Properties of the extractor and of the sink\<close>

text \<open>
  C1. Every section is scanned for each of the ten labels, and a section holding several
  labels contributes all of their fields to the current record. The chain of
  \<^verbatim>\<open>elif\<close> takes one branch only: in a section that holds the niche label and the
  audience label, the audience is lost.
\<close>

theorem one_field_per_section:
  "contains (''NICHE NAME: Dog Moms'' @ nl @ ''TARGET AUDIENCE: Dog owners'') ''NICHE NAME:''
   \<and> contains (''NICHE NAME: Dog Moms'' @ nl @ ''TARGET AUDIENCE: Dog owners'') ''TARGET AUDIENCE:''
   \<and> extract_opportunities (''NICHE NAME: Dog Moms'' @ nl @ ''TARGET AUDIENCE: Dog owners'')
       = Inr [ [(''niche'', PyStr ''Dog Moms'')] ]"
  by code_simp

text \<open>
  C2. A text that is one well-formed block with all ten labels in order gives one record
  with all ten fields. For the block in the layout that the prompt of
  \<^verbatim>\<open>analyze_niche_opportunities\<close> asks for, ten numbered lines, the extractor returns
  one record that holds the niche alone.
\<close>

theorem well_formed_block_loses_fields:
  "extract_opportunities
     (''1. NICHE NAME: Dog Moms'' @ nl @
      ''2. TARGET AUDIENCE: Dog owners'' @ nl @
      ''3. DESIGN THEME: Retro'' @ nl @
      ''4. PRODUCTS: mug'' @ nl @
      ''5. DEMAND SCORE: 8/10'' @ nl @
      ''6. COMPETITION: Low'' @ nl @
      ''7. DESIGN EXAMPLES: paws'' @ nl @
      ''8. WHY IT WORKS: gifts'' @ nl @
      ''9. FACEBOOK AD ANGLE: pride'' @ nl @
      ''10. ESTIMATED MONTHLY REVENUE: 500'')
     = Inr [ [(''niche'', PyStr ''Dog Moms'')] ]"
  by code_simp

text \<open>
  C3. The audit row is said to be appended whenever a destination is configured, also
  when there are no records and when the append of the records fails. In both cases no
  request goes to the audit range: with no records the guard returns at once, and a
  failed append of the records ends the \<^verbatim>\<open>try\<close>.
\<close>

theorem audit_row_not_independent:
  "sheet_id \<lparr>sheet_id = ''sheet-1'', sheets_service = accepting_service\<rparr> \<noteq> []
   \<and> save_to_sheets \<lparr>sheet_id = ''sheet-1'', sheets_service = accepting_service\<rparr> fixed_clock [] ''raw''
       = Inr \<lparr>requests = [], printed = [No_opportunities]\<rparr>
   \<and> audit_requests \<lparr>requests = [], printed = [No_opportunities]\<rparr> = []
   \<and> save_to_sheets \<lparr>sheet_id = ''sheet-1'', sheets_service = failing_service\<rparr> fixed_clock
        [ [(''niche'', PyStr ''A'')] ] ''raw''
       = Inr \<lparr>requests = [records_request \<lparr>sheet_id = ''sheet-1'', sheets_service = failing_service\<rparr>
                              fixed_clock [ [(''niche'', PyStr ''A'')] ]],
              printed = [Error_saving ServiceError]\<rparr>
   \<and> audit_requests \<lparr>requests = [records_request \<lparr>sheet_id = ''sheet-1'', sheets_service = failing_service\<rparr>
                              fixed_clock [ [(''niche'', PyStr ''A'')] ]],
              printed = [Error_saving ServiceError]\<rparr> = []"
  by (simp add: save_to_sheets_def save_rows_def append_values_def records_request_def
      audit_requests_def failing_service_def)

text \<open>
  C3, as the code has it. The sink never raises, and it sends a request to the audit
  range exactly when a destination is configured, there is at least one record and the
  append of the records succeeded; that request is then the only one to the audit range
  and carries the clock reading and the full analysis text.
\<close>

theorem audit_row_after_records:
  "\<exists>log. save_to_sheets self clock opportunities raw_analysis = Inr log
     \<and> audit_requests log =
         (if sheet_id self \<noteq> [] \<and> opportunities \<noteq> []
             \<and> sheets_service self (records_request self clock opportunities) = Inr ()
          then [audit_request self clock opportunities raw_analysis] else [])"
  by (auto simp: save_to_sheets_def save_rows_def append_values_def records_request_def
      audit_request_def audit_requests_def Let_def split: sum.split)

theorem audit_row_after_records_witness:
  "audit_requests \<lparr>requests =
       [records_request \<lparr>sheet_id = ''sheet-1'', sheets_service = accepting_service\<rparr>
          fixed_clock [ [(''niche'', PyStr ''A'')] ],
        audit_request \<lparr>sheet_id = ''sheet-1'', sheets_service = accepting_service\<rparr>
          fixed_clock [ [(''niche'', PyStr ''A'')] ] ''raw''],
      printed = [Saved 1]\<rparr>
   = [audit_request \<lparr>sheet_id = ''sheet-1'', sheets_service = accepting_service\<rparr>
        fixed_clock [ [(''niche'', PyStr ''A'')] ] ''raw'']"
proof -
  let ?self = "\<lparr>sheet_id = ''sheet-1'', sheets_service = accepting_service\<rparr>"
  have run: "save_to_sheets ?self fixed_clock [ [(''niche'', PyStr ''A'')] ] ''raw''
     = Inr \<lparr>requests = [records_request ?self fixed_clock [ [(''niche'', PyStr ''A'')] ],
                         audit_request ?self fixed_clock [ [(''niche'', PyStr ''A'')] ] ''raw''],
            printed = [Saved 1]\<rparr>"
    by (simp add: save_to_sheets_def save_rows_def append_values_def records_request_def
      audit_request_def accepting_service_def)
  from audit_row_after_records [of ?self fixed_clock "[ [(''niche'', PyStr ''A'')] ]" "''raw''"] run
  show ?thesis by (simp add: accepting_service_def)
qed

text \<open>
  C4. The demand score is said to be parsed from the text after the label up to the next
  line break, stripped, cut before an optional slash and read as an integer. The source
  departs from this in two places. Where the label occurs again on the same line, it
  stops at the second occurrence: it reads 7, while the text up to the line break does
  not parse and would give the default. And it strips the part before the slash once
  more: it reads 7 where a separator 0x1C stands before the slash, while \<^verbatim>\<open>int\<close> refuses
  the unstripped part.
\<close>

theorem demand_score_repeated_label:
  "extract_field [] ''DEMAND SCORE: 7 DEMAND SCORE: 8'' = Inr [(''demand_score'', PyInt 7)]
   \<and> spec_demand_score ''DEMAND SCORE: 7 DEMAND SCORE: 8'' = 5
   \<and> extract_field [] (''DEMAND SCORE: 7'' @ [CHR 0x1C] @ ''/10'')
       = Inr [(''demand_score'', PyInt 7)]
   \<and> spec_demand_score (''DEMAND SCORE: 7'' @ [CHR 0x1C] @ ''/10'') = 5"
  by code_simp

text \<open>
  C4, as the code has it. In a section where the demand score is read (it holds the
  demand-score label and none of the four labels tested before it), the score is parsed
  from the text after the first occurrence of the label up to the next occurrence of the
  label or the next line break: stripped, cut before an optional slash, stripped again,
  read as an integer, 5 when that fails; nothing is raised. \<^verbatim>\<open>7/10\<close> gives 7, \<^verbatim>\<open>N/A\<close>
  gives 5 and \<^verbatim>\<open>10\<close> gives 10.
\<close>

theorem demand_score_parsing:
  assumes "contains section ''DEMAND SCORE:''"
    and "\<not> contains section ''NICHE NAME:''" and "\<not> contains section ''TARGET AUDIENCE:''"
    and "\<not> contains section ''DESIGN THEME:''" and "\<not> contains section ''PRODUCTS:''"
  shows "extract_field current_opp section
           = Inr (dict_set current_opp ''demand_score'' (PyInt (spec_demand_score_segment section)))
         \<and> extract_field [] ''DEMAND SCORE: 7/10'' = Inr [(''demand_score'', PyInt 7)]
         \<and> extract_field [] ''DEMAND SCORE: N/A'' = Inr [(''demand_score'', PyInt 5)]
         \<and> extract_field [] ''DEMAND SCORE: 10'' = Inr [(''demand_score'', PyInt 10)]"
proof -
  have "value_between section ''DEMAND SCORE:'' nl
          = Inr (strip (text_before
                   (text_before (text_after section ''DEMAND SCORE:'') ''DEMAND SCORE:'') nl))"
    using assms(1) by (simp add: value_between_eq split_at_0 split_at_1)
  then have "extract_field current_opp section
           = Inr (dict_set current_opp ''demand_score'' (PyInt (spec_demand_score_segment section)))"
    using assms
    by (simp add: extract_field_def spec_demand_score_segment_def demand_score_of_eq)
  moreover have "extract_field [] ''DEMAND SCORE: 7/10'' = Inr [(''demand_score'', PyInt 7)]"
    by code_simp
  moreover have "extract_field [] ''DEMAND SCORE: N/A'' = Inr [(''demand_score'', PyInt 5)]"
    by code_simp
  moreover have "extract_field [] ''DEMAND SCORE: 10'' = Inr [(''demand_score'', PyInt 10)]"
    by code_simp
  ultimately show ?thesis by simp
qed

theorem demand_score_parsing_witness:
  "contains (''5. DEMAND SCORE: 7'' @ [CHR 0x1C] @ ''/10 DEMAND SCORE: 8'' @ nl @ ''hot'')
     ''DEMAND SCORE:''
   \<and> spec_demand_score_segment
        (''5. DEMAND SCORE: 7'' @ [CHR 0x1C] @ ''/10 DEMAND SCORE: 8'' @ nl @ ''hot'') = 7
   \<and> extract_field []
        (''5. DEMAND SCORE: 7'' @ [CHR 0x1C] @ ''/10 DEMAND SCORE: 8'' @ nl @ ''hot'')
       = Inr [(''demand_score'', PyInt 7)]"
proof -
  let ?s = "''5. DEMAND SCORE: 7'' @ [CHR 0x1C] @ ''/10 DEMAND SCORE: 8'' @ nl @ ''hot''"
  have h: "contains ?s ''DEMAND SCORE:''" "\<not> contains ?s ''NICHE NAME:''"
    "\<not> contains ?s ''TARGET AUDIENCE:''" "\<not> contains ?s ''DESIGN THEME:''"
    "\<not> contains ?s ''PRODUCTS:''"
    by code_simp+
  have v: "spec_demand_score_segment ?s = 7"
    by code_simp
  from demand_score_parsing [OF h, of "[]"] v h(1) show ?thesis
    by simp
qed

text \<open>
  C5. The extractor is total: for every analysis text it returns a list of records and
  raises nothing, whatever the sections hold.
\<close>

theorem extract_opportunities_total:
  "\<exists>opportunities. extract_opportunities analysis_text = Inr opportunities"
  using extract_sections_total
  by (simp add: extract_opportunities_def py_split_def)

text \<open>
  C6. The extractor is a function of the analysis text alone: the call leaves the object
  as it was, a second call on the same text returns the same records, and so does a
  call on any other object.
\<close>

theorem extractor_deterministic:
  "snd (call_extract_opportunities (fst (call_extract_opportunities self analysis_text)) analysis_text)
     = snd (call_extract_opportunities self analysis_text)
   \<and> fst (call_extract_opportunities self analysis_text) = self
   \<and> snd (call_extract_opportunities self analysis_text)
     = snd (call_extract_opportunities other analysis_text)"
  by (simp add: call_extract_opportunities_def)

text \<open>
  C7. No record without fields is ever returned, and a text in which none of the ten
  labels occurs gives the empty list of records, also when sections start with the
  ordinals of item 1 or item 2.
\<close>

theorem no_empty_record:
  "\<exists>opportunities. extract_opportunities analysis_text = Inr opportunities
     \<and> [] \<notin> set opportunities
     \<and> (\<not> has_label analysis_text \<longrightarrow> opportunities = [])"
proof -
  let ?sections = "split_at analysis_text (nl @ nl)"
  have eo: "extract_opportunities analysis_text = extract_sections ?sections"
    by (simp add: extract_opportunities_def py_split_def)
  obtain opportunities where es: "extract_sections ?sections = Inr opportunities"
    using extract_sections_total by blast
  have "[] \<notin> set opportunities"
    using es by (rule extract_sections_no_empty)
  moreover have "opportunities = []" if "\<not> has_label analysis_text"
  proof -
    from that have "\<forall>s \<in> set ?sections. \<not> has_label s"
      using has_label_split_at by blast
    then have "process_sections ?sections ([], []) = Inr ([], [])"
      by (rule process_sections_no_label)
    with es show ?thesis
      by (simp add: extract_sections_def finish_def)
  qed
  ultimately show ?thesis using eo es by simp
qed

theorem no_empty_record_witness:
  "\<not> has_label (''1. hello'' @ nl @ nl @ ''2. world'')
   \<and> is_boundary ''1. hello'' \<and> is_boundary ''2. world''
   \<and> extract_opportunities (''1. hello'' @ nl @ nl @ ''2. world'') = Inr []"
proof -
  have h: "\<not> has_label (''1. hello'' @ nl @ nl @ ''2. world'')"
    by code_simp
  have b: "is_boundary ''1. hello'' \<and> is_boundary ''2. world''"
    by code_simp
  from no_empty_record [of "''1. hello'' @ nl @ nl @ ''2. world''"] h b
  show ?thesis by auto
qed

text \<open>
  C8. Called with no records, or with no spreadsheet configured, the sink sends no
  request at all and returns without raising.
\<close>

theorem sink_nothing_to_save:
  assumes "opportunities = [] \<or> sheet_id self = []"
  shows "\<exists>log. save_to_sheets self clock opportunities raw_analysis = Inr log \<and> requests log = []"
  using assms by (auto simp: save_to_sheets_def)

theorem sink_nothing_to_save_witness:
  "save_to_sheets \<lparr>sheet_id = ''sheet-1'', sheets_service = accepting_service\<rparr> fixed_clock [] ''raw''
     = Inr \<lparr>requests = [], printed = [No_opportunities]\<rparr>
   \<and> save_to_sheets \<lparr>sheet_id = [], sheets_service = accepting_service\<rparr> fixed_clock
        [ [(''niche'', PyStr ''A'')] ] ''raw''
     = Inr \<lparr>requests = [], printed = [No_opportunities]\<rparr>"
proof -
  have "([]::opp list) = [] \<or> sheet_id \<lparr>sheet_id = ''sheet-1'', sheets_service = accepting_service\<rparr> = []"
    by simp
  from sink_nothing_to_save [OF this, of fixed_clock "''raw''"]
  have a: "\<exists>log. save_to_sheets \<lparr>sheet_id = ''sheet-1'', sheets_service = accepting_service\<rparr>
                   fixed_clock [] ''raw'' = Inr log \<and> requests log = []" .
  have "[ [(''niche'', PyStr ''A'')] ] = []
        \<or> sheet_id \<lparr>sheet_id = [], sheets_service = accepting_service\<rparr> = []"
    by simp
  from sink_nothing_to_save [OF this, of fixed_clock "''raw''"]
  have b: "\<exists>log. save_to_sheets \<lparr>sheet_id = [], sheets_service = accepting_service\<rparr> fixed_clock
        [ [(''niche'', PyStr ''A'')] ] ''raw'' = Inr log \<and> requests log = []" .
  from a b show ?thesis
    by (auto simp: save_to_sheets_def)
qed

text \<open>The sections of the next two inputs: the section with two labels is no boundary,
  the section with the niche label is one.\<close>

lemma two_label_sections_no_boundary:
  "\<not> is_boundary (''TARGET AUDIENCE: a'' @ nl @ ''PRODUCTS: b'')
   \<and> is_boundary ''NICHE NAME: x''
   \<and> \<not> is_boundary (''TARGET AUDIENCE: moms'' @ nl @ ''PRODUCTS: hoodie'')"
  by code_simp

text \<open>
  C9. Fields of labelled sections that stand before the first boundary section are said
  to be gathered and returned as a leading record of their own, none of them dropped.
  A leading record is returned, apart from the records of the sections that follow, yet
  a leading section that holds two labels gives it one field only: in the input below
  the products are lost to the \<^verbatim>\<open>elif\<close> chain.
\<close>

theorem leading_fields_dropped:
  "contains (''TARGET AUDIENCE: a'' @ nl @ ''PRODUCTS: b'') ''TARGET AUDIENCE:''
   \<and> contains (''TARGET AUDIENCE: a'' @ nl @ ''PRODUCTS: b'') ''PRODUCTS:''
   \<and> extract_opportunities
        (''TARGET AUDIENCE: a'' @ nl @ ''PRODUCTS: b'' @ nl @ nl @ ''NICHE NAME: x'')
       = Inr [ [(''audience'', PyStr ''a'')], [(''niche'', PyStr ''x'')] ]"
  by code_simp

text \<open>
  C10. When the same label occurs in two sections of one record, the field is said to
  hold the value of the later section. Where the later section also holds a label that
  the \<^verbatim>\<open>elif\<close> chain tests earlier, the later value is never read and the field keeps
  the value of the earlier section.
\<close>

theorem later_label_not_extracted:
  "contains ''PRODUCTS: mug'' ''PRODUCTS:''
   \<and> contains (''TARGET AUDIENCE: moms'' @ nl @ ''PRODUCTS: hoodie'') ''PRODUCTS:''
   \<and> extract_opportunities
        (''PRODUCTS: mug'' @ nl @ nl @ ''TARGET AUDIENCE: moms'' @ nl @ ''PRODUCTS: hoodie'')
       = Inr [ [(''products'', PyStr ''mug''), (''audience'', PyStr ''moms'')] ]"
  by code_simp

end
